theory Spec2Isabelle
  imports Complex_Main "HOL-Library.Word" "HOL-Library.Sublist"
begin

unbundle bit_operations_syntax

section \<open>Data model of \<open>src/App.tsx\<close> and \<open>types.ts\<close>\<close>

text \<open>
  JavaScript strings are sequences of UTF-16 code units.  Times of the audio clock and
  buffer durations are JavaScript numbers; they are modelled as exact reals.
\<close>

type_synonym jsstring = "16 word list"

definition js :: "string \<Rightarrow> jsstring" where
  \<comment> \<open>an ASCII literal as a JavaScript string\<close>
  "js s = map (\<lambda>c. of_nat (of_char c)) s"

datatype AppStatus = IDLE | CONNECTING | ACTIVE | ERROR

datatype Role = User | Model

record TranscriptionEntry =
  role :: Role
  entry_text :: jsstring
  timestamp :: int

datatype ctx_state = Running | Suspended

text \<open>
  An \<open>AudioBuffer\<close> of the Web Audio API: its \<open>duration\<close> is its length in sample
  frames divided by its sample rate.
\<close>

record AudioBuffer =
  buf_length :: nat
  buf_sampleRate :: nat

definition duration :: "AudioBuffer \<Rightarrow> real" where
  "duration b = real (buf_length b) / real (buf_sampleRate b)"

text \<open>One call \<open>sourceNode.start(scheduleTime)\<close> on the output graph.\<close>

record PlaybackUnit =
  unit_node :: nat
  unit_start :: real
  unit_duration :: real

text \<open>
  The component's React state (\<open>useState\<close>), its refs (\<open>useRef\<close>), and below them the
  part of the browser and of the remote service that the handlers act on: the log of
  \<open>start\<close> calls, the source nodes still sounding, the remote sessions opened and not
  closed, the number of \<open>connect\<close> calls, the script processors connected to the input
  graph, the microphone streams obtained from \<open>getUserMedia\<close>, the number of audio
  contexts constructed, the number of invocations of \<open>startSession\<close>, and the
  invocations suspended at each of its three awaits (lines 74, 79 and 202).

  React applies the updates of one state variable in the order of the setter calls, so
  each state variable is modelled by its value after the updates made so far.  The one
  place where the moment at which React runs an updater matters is the turn-completion
  branch, whose updater calls two other setters; it is treated there.
\<close>

record app_state =
  status :: AppStatus
  transcriptions :: "TranscriptionEntry list"
  liveUserText :: jsstring
  liveModelText :: jsstring
  userVolume :: real
  modelVolume :: real
  errorMessage :: "string option"
  inputAudioContext :: bool
  outputAudioContext :: "ctx_state option"
  outputNode :: bool
  sources :: "nat list"
  sessionRef :: "nat option"
  nextStartTime :: real
  scriptProcessor :: "nat option"
  started :: "PlaybackUnit list"
  playing :: "nat list"
  nodeCount :: nat
  openSessions :: "nat list"
  connectCount :: nat
  connectedProcessors :: "nat list"
  micStreams :: nat
  contextsCreated :: nat
  startCount :: nat
  awaitingResume :: "nat list"
  awaitingMic :: "nat list"
  awaitingConnect :: "nat list"

definition initial_state :: app_state where
  "initial_state =
     \<lparr> status = IDLE, transcriptions = [], liveUserText = [], liveModelText = [],
       userVolume = 0, modelVolume = 0, errorMessage = None,
       inputAudioContext = False, outputAudioContext = None, outputNode = False,
       sources = [], sessionRef = None, nextStartTime = 0, scriptProcessor = None,
       started = [], playing = [], nodeCount = 0, openSessions = [], connectCount = 0,
       connectedProcessors = [], micStreams = 0, contextsCreated = 0, startCount = 0,
       awaitingResume = [], awaitingMic = [], awaitingConnect = [] \<rparr>"

text \<open>A JavaScript \<open>Set\<close> kept in insertion order: \<open>add\<close> and \<open>delete\<close>.\<close>

definition set_add :: "nat \<Rightarrow> nat list \<Rightarrow> nat list" where
  "set_add x xs = (if x \<in> set xs then xs else xs @ [x])"

definition set_delete :: "nat \<Rightarrow> nat list \<Rightarrow> nat list" where
  "set_delete x xs = removeAll x xs"

section \<open>Playback scheduling (\<open>onmessage\<close>, lines 132 to 141)\<close>

text \<open>
  A fresh source node is created for the decoded buffer, started at
  \<open>Math.max(nextStartTimeRef.current, ctx.currentTime)\<close>, the watermark is moved to the end
  of the unit, and the node joins \<open>sourcesRef\<close>.
\<close>

definition enqueue :: "real \<Rightarrow> AudioBuffer \<Rightarrow> app_state \<Rightarrow> app_state" where
  "enqueue currentTime audioBuffer st =
     (let sourceNode = nodeCount st;
          scheduleTime = max (nextStartTime st) currentTime
      in st\<lparr> nodeCount := Suc sourceNode,
              started := started st @
                 [\<lparr> unit_node = sourceNode, unit_start = scheduleTime,
                    unit_duration = duration audioBuffer \<rparr>],
              playing := playing st @ [sourceNode],
              nextStartTime := scheduleTime + duration audioBuffer,
              sources := set_add sourceNode (sources st) \<rparr>)"

fun enqueue_all :: "(real \<times> AudioBuffer) list \<Rightarrow> app_state \<Rightarrow> app_state" where
  "enqueue_all [] st = st"
| "enqueue_all ((currentTime, audioBuffer) # ops) st =
     enqueue_all ops (enqueue currentTime audioBuffer st)"

text \<open>Units in play order: each starts no earlier than its predecessor starts and ends.\<close>

fun no_overlap :: "PlaybackUnit list \<Rightarrow> bool" where
  "no_overlap (u # v # us) =
     (unit_start u \<le> unit_start v \<and> unit_start u + unit_duration u \<le> unit_start v
      \<and> no_overlap (v # us))"
| "no_overlap _ = True"

text \<open>A chain of units after the watermark \<open>e\<close>: the invariant behind \<open>no_overlap\<close>.\<close>

fun chain :: "real \<Rightarrow> PlaybackUnit list \<Rightarrow> bool" where
  "chain e [] = True"
| "chain e (u # us) =
     (e \<le> unit_start u \<and> 0 \<le> unit_duration u \<and> chain (unit_start u + unit_duration u) us)"

section \<open>Inbound messages (\<open>onmessage\<close>, lines 115 to 172)\<close>

text \<open>
  Of a \<open>LiveServerMessage\<close> the handler reads, always through optional chaining,
  \<open>serverContent.modelTurn.parts\<close>, each part's \<open>inlineData.data\<close>, the two transcription
  objects with their optional \<open>text\<close>, and the flags \<open>turnComplete\<close> and \<open>interrupted\<close>;
  an absent link of a chain is \<open>None\<close>.  The search for grounding metadata (lines 117 to
  120) only writes to the console and is left out.
\<close>

record Part =
  inlineData :: "jsstring option"

record LiveServerMessage =
  modelTurnParts :: "Part list option"
  outputTranscription :: "jsstring option option"
  inputTranscription :: "jsstring option option"
  turnComplete :: bool
  interrupted :: bool

text \<open>
  What one run of the handler reads from its environment: \<open>ctx.currentTime\<close> while the
  part with a given index is scheduled (and, at the index after the last part, in the
  interruption branch), the two calls of \<open>Date.now()\<close>, and, for the turn-completion
  branch, whether React has already run the updater of line 155 and the updater of line
  159 when line 163 reads \<open>newEntries\<close>.
\<close>

record handler_env =
  clockAt :: "nat \<Rightarrow> real"
  dateNowUser :: int
  dateNowModel :: int
  userUpdaterRan :: bool
  modelUpdaterRan :: bool

datatype error = CodecError | InvalidStateError

text \<open>
  Lines 125 to 142.  \<open>decode\<close> and \<open>decodeAudioData\<close> live in \<open>utils/audioUtils\<close>, which
  is not part of the sources at hand; their composition is the parameter \<open>dec\<close>, and a
  throw inside it ends the handler with the state reached so far.
\<close>

definition play_part ::
  "(jsstring \<Rightarrow> error + AudioBuffer) \<Rightarrow> real \<Rightarrow> Part \<Rightarrow> app_state
     \<Rightarrow> (error \<times> app_state) + app_state" where
  "play_part dec currentTime part st =
     (case inlineData part of
        None \<Rightarrow> Inr st
      | Some base64Audio \<Rightarrow>
          if base64Audio \<noteq> [] \<and> outputAudioContext st \<noteq> None \<and> outputNode st then
            (let st1 = (if outputAudioContext st = Some Suspended
                        then st\<lparr> outputAudioContext := Some Running \<rparr> else st)
             in case dec base64Audio of
                  Inl e \<Rightarrow> Inl (e, st1)
                | Inr audioBuffer \<Rightarrow> Inr (enqueue currentTime audioBuffer st1))
          else Inr st)"

fun play_parts ::
  "(jsstring \<Rightarrow> error + AudioBuffer) \<Rightarrow> (nat \<Rightarrow> real) \<Rightarrow> nat \<Rightarrow> Part list \<Rightarrow> app_state
     \<Rightarrow> (error \<times> app_state) + app_state" where
  "play_parts dec clk i [] st = Inr st"
| "play_parts dec clk i (part # parts) st =
     (case play_part dec (clk i) part st of
        Inl e \<Rightarrow> Inl e
      | Inr st' \<Rightarrow> play_parts dec clk (Suc i) parts st')"

text \<open>
  Lines 146 to 150.  \<open>prev + t.text\<close> with an absent \<open>text\<close> concatenates the string
  \<open>undefined\<close>.
\<close>

definition text_of :: "jsstring option \<Rightarrow> jsstring" where
  "text_of t = (case t of Some s \<Rightarrow> s | None \<Rightarrow> js ''undefined'')"

definition append_transcription :: "LiveServerMessage \<Rightarrow> app_state \<Rightarrow> app_state" where
  "append_transcription message st =
     (case outputTranscription message of
        Some t \<Rightarrow> st\<lparr> liveModelText := liveModelText st @ text_of t \<rparr>
      | None \<Rightarrow>
          (case inputTranscription message of
             Some t \<Rightarrow> st\<lparr> liveUserText := liveUserText st @ text_of t \<rparr>
           | None \<Rightarrow> st))"

text \<open>
  \<open>String.prototype.trim\<close> removes the ECMAScript white space and line terminator code
  units from both ends; a string is truthy when it is not empty.
\<close>

definition is_js_whitespace :: "16 word \<Rightarrow> bool" where
  "is_js_whitespace c =
     (c \<in> {0x9, 0xA, 0xB, 0xC, 0xD, 0x20, 0xA0, 0x1680, 0x2028, 0x2029, 0x202F, 0x205F,
            0x3000, 0xFEFF}
      \<or> (0x2000 \<le> c \<and> c \<le> 0x200A))"

definition js_trim :: "jsstring \<Rightarrow> jsstring" where
  "js_trim s = rev (dropWhile is_js_whitespace (rev (dropWhile is_js_whitespace s)))"

definition slice_last :: "nat \<Rightarrow> 'a list \<Rightarrow> 'a list" where
  \<comment> \<open>\<open>xs.slice(-n)\<close>\<close>
  "slice_last n xs = drop (length xs - n) xs"

text \<open>
  Lines 152 to 165, the turn-completion branch.  The updater given to \<open>setTranscriptions\<close>
  calls \<open>setLiveUserText\<close> and \<open>setLiveModelText\<close> with updaters that push an entry onto
  \<open>newEntries\<close> and return the empty string, and then returns
  \<open>[...prev, ...newEntries].slice(-15)\<close>.  React runs an updater at the call of the setter
  only when the component has no update pending, and otherwise queues it for the next
  render; a queued inner updater pushes its entry after line 163 has read the array, and
  the entry is lost.  Both inner updaters run in the end, so both accumulators become
  empty.  \<open>newEntries\<close> is the array as line 163 finds it.
\<close>

definition newEntries :: "handler_env \<Rightarrow> app_state \<Rightarrow> TranscriptionEntry list" where
  "newEntries env st =
     (if userUpdaterRan env \<and> js_trim (liveUserText st) \<noteq> []
      then [\<lparr> role = User, entry_text = liveUserText st, timestamp = dateNowUser env \<rparr>]
      else [])
     @ (if modelUpdaterRan env \<and> js_trim (liveModelText st) \<noteq> []
        then [\<lparr> role = Model, entry_text = liveModelText st, timestamp = dateNowModel env \<rparr>]
        else [])"

definition splice :: "TranscriptionEntry list \<Rightarrow> TranscriptionEntry list \<Rightarrow> TranscriptionEntry list" where
  \<comment> \<open>line 163\<close>
  "splice prev entries = slice_last 15 (prev @ entries)"

definition finalizeTurn :: "handler_env \<Rightarrow> app_state \<Rightarrow> app_state" where
  "finalizeTurn env st =
     st\<lparr> liveUserText := [], liveModelText := [],
         transcriptions := splice (transcriptions st) (newEntries env st) \<rparr>"

text \<open>
  \<open>try { s.stop(); } catch(e) {}\<close>: a node that no longer sounds is taken to make
  \<open>stop\<close> throw, and the handler swallows the exception.
\<close>

definition stop_node :: "nat \<Rightarrow> nat list \<Rightarrow> error + nat list" where
  "stop_node n pl = (if n \<in> set pl then Inr (removeAll n pl) else Inl InvalidStateError)"

definition try_stop :: "nat \<Rightarrow> nat list \<Rightarrow> nat list" where
  "try_stop n pl = (case stop_node n pl of Inr pl' \<Rightarrow> pl' | Inl e \<Rightarrow> pl)"

definition stop_all :: "nat list \<Rightarrow> nat list \<Rightarrow> nat list" where
  "stop_all srcs pl = fold try_stop srcs pl"

text \<open>
  Lines 167 to 171, the interruption branch.  \<open>currentTime || 0\<close> is \<open>currentTime\<close> when
  the output context exists (a clock at zero gives zero either way) and zero otherwise.
\<close>

definition interrupt :: "real \<Rightarrow> app_state \<Rightarrow> app_state" where
  "interrupt currentTime st =
     st\<lparr> playing := stop_all (sources st) (playing st),
         sources := [],
         nextStartTime :=
           (case outputAudioContext st of Some c \<Rightarrow> currentTime | None \<Rightarrow> 0) \<rparr>"

definition onmessage ::
  "(jsstring \<Rightarrow> error + AudioBuffer) \<Rightarrow> handler_env \<Rightarrow> LiveServerMessage \<Rightarrow> app_state
     \<Rightarrow> (error \<times> app_state) + app_state" where
  "onmessage dec env message st =
     (case (case modelTurnParts message of
              Some parts \<Rightarrow> play_parts dec (clockAt env) 0 parts st
            | None \<Rightarrow> Inr st) of
        Inl e \<Rightarrow> Inl e
      | Inr st1 \<Rightarrow>
          (let st2 = append_transcription message st1;
               st3 = (if turnComplete message then finalizeTurn env st2 else st2);
               st4 = (if interrupted message
                      then interrupt
                             (clockAt env (case modelTurnParts message of
                                             Some parts \<Rightarrow> length parts | None \<Rightarrow> 0))
                             st3
                      else st3)
           in Inr st4))"

text \<open>Line 136: the \<open>onended\<close> callback of a source node, fired when the node has ended.\<close>

definition onended :: "nat \<Rightarrow> app_state \<Rightarrow> app_state" where
  "onended sourceNode st =
     st\<lparr> playing := removeAll sourceNode (playing st),
         sources := set_delete sourceNode (sources st) \<rparr>"

section \<open>Session lifecycle (\<open>stopSession\<close>, \<open>startSession\<close>, callbacks, button)\<close>

text \<open>
  Lines 35 to 53.  \<open>session.close()\<close> and \<open>disconnect()\<close> belong to external libraries and
  are taken not to throw.
\<close>

definition stopSession :: "app_state \<Rightarrow> app_state" where
  "stopSession st =
     (let st1 = (case sessionRef st of
                   Some s \<Rightarrow> st\<lparr> openSessions := removeAll s (openSessions st),
                                 sessionRef := None \<rparr>
                 | None \<Rightarrow> st);
          st2 = (case scriptProcessor st1 of
                   Some p \<Rightarrow> st1\<lparr> connectedProcessors := removeAll p (connectedProcessors st1),
                                  scriptProcessor := None \<rparr>
                 | None \<Rightarrow> st1)
      in st2\<lparr> playing := stop_all (sources st2) (playing st2),
               sources := [],
               status := IDLE, userVolume := 0, modelVolume := 0,
               liveUserText := [], liveModelText := [],
               nextStartTime := 0 \<rparr>)"

text \<open>
  Lines 55 to 209.  \<open>startSession\<close> is asynchronous: it runs to its first await and
  every other handler can run before it continues.  Each invocation takes the next
  number; its script processor and its session carry that number.  \<open>startSession\<close>
  below is the part before the first await (lines 56 to 77: the two contexts are made if
  absent and resumed); \<open>after_resume\<close>, \<open>after_getUserMedia\<close> and \<open>after_connect\<close> are
  the continuations of the invocation numbered \<open>k\<close> after the awaits of lines 74, 79 and
  202, each with the outcome of the awaited promise; a continuation runs only for an
  invocation suspended at its await.  A rejected promise leads to the \<open>catch\<close> block.
\<close>

definition start_failed :: "app_state \<Rightarrow> app_state" where
  \<comment> \<open>the \<open>catch\<close> block, lines 204 to 208\<close>
  "start_failed st =
     st\<lparr> errorMessage := Some ''SUPRA requires microphone access to initialize.'',
         status := ERROR \<rparr>"

definition startSession :: "app_state \<Rightarrow> app_state" where
  "startSession st =
     (let st1 = st\<lparr> status := CONNECTING, errorMessage := None \<rparr>;
          st2 = (if inputAudioContext st1 then st1
                 else st1\<lparr> inputAudioContext := True,
                           contextsCreated := Suc (contextsCreated st1) \<rparr>);
          st3 = (if outputAudioContext st2 = None
                 then st2\<lparr> outputAudioContext := Some Running, outputNode := True,
                           contextsCreated := Suc (contextsCreated st2) \<rparr>
                 else st2\<lparr> outputAudioContext := Some Running \<rparr>)
      in st3\<lparr> awaitingResume := awaitingResume st3 @ [startCount st3],
               startCount := Suc (startCount st3) \<rparr>)"

definition after_resume :: "nat \<Rightarrow> bool \<Rightarrow> app_state \<Rightarrow> app_state" where
  \<comment> \<open>lines 74 to 79: with both contexts resumed, \<open>getUserMedia\<close> is called\<close>
  "after_resume k resumed st =
     (if k \<notin> set (awaitingResume st) then st
      else
        (let st1 = st\<lparr> awaitingResume := removeAll k (awaitingResume st) \<rparr>
         in if resumed then st1\<lparr> awaitingMic := awaitingMic st1 @ [k] \<rparr>
            else start_failed st1))"

definition after_getUserMedia :: "nat \<Rightarrow> bool \<Rightarrow> app_state \<Rightarrow> app_state" where
  \<comment> \<open>lines 79 to 200: with the stream, the capture chain is built and \<open>connect\<close> is called\<close>
  "after_getUserMedia k granted st =
     (if k \<notin> set (awaitingMic st) then st
      else
        (let st1 = st\<lparr> awaitingMic := removeAll k (awaitingMic st) \<rparr>
         in if granted
            then st1\<lparr> micStreams := Suc (micStreams st1),
                      scriptProcessor := Some k,
                      connectCount := Suc (connectCount st1),
                      awaitingConnect := awaitingConnect st1 @ [k] \<rparr>
            else start_failed st1))"

definition after_connect :: "nat \<Rightarrow> bool \<Rightarrow> app_state \<Rightarrow> app_state" where
  \<comment> \<open>line 202: the session obtained is stored in \<open>sessionRef\<close>\<close>
  "after_connect k resolved st =
     (if k \<notin> set (awaitingConnect st) then st
      else
        (let st1 = st\<lparr> awaitingConnect := removeAll k (awaitingConnect st) \<rparr>
         in if resolved
            then st1\<lparr> sessionRef := Some k, openSessions := openSessions st1 @ [k] \<rparr>
            else start_failed st1))"

text \<open>Lines 94 to 114, for the invocation numbered \<open>k\<close>.\<close>

definition onopen :: "nat \<Rightarrow> app_state \<Rightarrow> app_state" where
  "onopen k st =
     st\<lparr> status := ACTIVE, connectedProcessors := set_add k (connectedProcessors st) \<rparr>"

text \<open>
  Lines 173 to 178.  \<open>onclose\<close> is called when the connection numbered \<open>k\<close> has closed,
  by the remote side or as the result of an earlier \<open>session.close()\<close>.
\<close>

definition onerror :: "app_state \<Rightarrow> app_state" where
  "onerror st = stopSession (st\<lparr> errorMessage := Some ''SUPRA neural link disrupted.'' \<rparr>)"

definition onclose :: "nat \<Rightarrow> app_state \<Rightarrow> app_state" where
  "onclose k st = stopSession (st\<lparr> openSessions := removeAll k (openSessions st) \<rparr>)"

text \<open>
  Lines 344 to 356: while the status is \<open>ACTIVE\<close> the button stops the session; otherwise
  it starts one, and it is disabled while the status is \<open>CONNECTING\<close>.
\<close>

definition click :: "app_state \<Rightarrow> app_state" where
  "click st =
     (if status st = ACTIVE then stopSession st
      else if status st = CONNECTING then st
      else startSession st)"

datatype event =
    Click
  | AfterResume nat bool
  | AfterGetUserMedia nat bool
  | AfterConnect nat bool
  | OnOpen nat
  | OnMessage handler_env LiveServerMessage
  | OnError
  | OnClose nat
  | OnEnded nat

definition step :: "(jsstring \<Rightarrow> error + AudioBuffer) \<Rightarrow> event \<Rightarrow> app_state \<Rightarrow> app_state" where
  "step dec ev st =
     (case ev of
        Click \<Rightarrow> click st
      | AfterResume k resumed \<Rightarrow> after_resume k resumed st
      | AfterGetUserMedia k granted \<Rightarrow> after_getUserMedia k granted st
      | AfterConnect k resolved \<Rightarrow> after_connect k resolved st
      | OnOpen k \<Rightarrow> onopen k st
      | OnMessage env message \<Rightarrow>
          (case onmessage dec env message st of Inl (e, st') \<Rightarrow> st' | Inr st' \<Rightarrow> st')
      | OnError \<Rightarrow> onerror st
      | OnClose k \<Rightarrow> onclose k st
      | OnEnded n \<Rightarrow> onended n st)"

definition run :: "(jsstring \<Rightarrow> error + AudioBuffer) \<Rightarrow> event list \<Rightarrow> app_state \<Rightarrow> app_state" where
  "run dec evs st = fold (step dec) evs st"

text \<open>
  The events whose handler reaches the turn-completion branch or \<open>stopSession\<close>, and the
  runs of \<open>onmessage\<close> that end in a throw of the decoder.
\<close>

definition clears_partial :: "event \<Rightarrow> app_state \<Rightarrow> bool" where
  "clears_partial ev st =
     (case ev of
        OnMessage env message \<Rightarrow> turnComplete message
      | OnError \<Rightarrow> True
      | OnClose k \<Rightarrow> True
      | Click \<Rightarrow> status st = ACTIVE
      | AfterResume k b \<Rightarrow> False
      | AfterGetUserMedia k b \<Rightarrow> False
      | AfterConnect k b \<Rightarrow> False
      | OnOpen k \<Rightarrow> False
      | OnEnded n \<Rightarrow> False)"

definition aborts :: "(jsstring \<Rightarrow> error + AudioBuffer) \<Rightarrow> event \<Rightarrow> app_state \<Rightarrow> bool" where
  "aborts dec ev st =
     (case ev of
        OnMessage env message \<Rightarrow> isl (onmessage dec env message st)
      | Click \<Rightarrow> False
      | AfterResume k b \<Rightarrow> False
      | AfterGetUserMedia k b \<Rightarrow> False
      | AfterConnect k b \<Rightarrow> False
      | OnOpen k \<Rightarrow> False
      | OnError \<Rightarrow> False
      | OnClose k \<Rightarrow> False
      | OnEnded n \<Rightarrow> False)"

text \<open>
  Two relations used in the proofs: what the audio branch of \<open>onmessage\<close> leaves alone,
  and the count of audio contexts constructed against the two context references.
\<close>

definition same_outside_playback :: "app_state \<Rightarrow> app_state \<Rightarrow> bool" where
  "same_outside_playback st st' =
     (status st' = status st \<and> sessionRef st' = sessionRef st
      \<and> openSessions st' = openSessions st \<and> liveUserText st' = liveUserText st
      \<and> liveModelText st' = liveModelText st \<and> transcriptions st' = transcriptions st
      \<and> micStreams st' = micStreams st \<and> scriptProcessor st' = scriptProcessor st
      \<and> errorMessage st' = errorMessage st \<and> connectCount st' = connectCount st
      \<and> startCount st' = startCount st \<and> contextsCreated st' = contextsCreated st
      \<and> inputAudioContext st' = inputAudioContext st
      \<and> (outputAudioContext st' = None) = (outputAudioContext st = None))"


section \<open>PCM frame codec\<close>

text \<open>
  Modelled from the spec: the functions \<open>createBlob\<close>, \<open>decode\<close> and \<open>decodeAudioData\<close>
  of \<open>utils/audioUtils\<close> are not among the sources, so the codec follows section 4.1 of
  the specification.  Samples are exact reals; a frame is a sequence of signed 16-bit
  values; the payload is their little-endian bytes.  The specification does not say how a
  scaled sample is rounded to an integer, so the rounding is the parameter \<open>rnd\<close>.  The
  envelope around the payload (mime type and sample rate) carries no sample data and is
  left out.
\<close>

definition clamp16 :: "int \<Rightarrow> int" where
  \<comment> \<open>Modelled from the spec: clamping to the signed 16-bit range.\<close>
  "clamp16 i = max (- 32768) (min 32767 i)"

definition to_int16 :: "(real \<Rightarrow> int) \<Rightarrow> real \<Rightarrow> 16 word" where
  \<comment> \<open>Modelled from the spec: a sample of [-1, 1] scaled to the signed 16-bit range.\<close>
  "to_int16 rnd x = word_of_int (clamp16 (rnd (x * 32768)))"

definition le_bytes :: "16 word \<Rightarrow> 8 word list" where
  \<comment> \<open>Modelled from the spec: a 16-bit sample as two bytes, low byte first.\<close>
  "le_bytes w = [ucast w, ucast (drop_bit 8 w)]"

definition encode :: "(real \<Rightarrow> int) \<Rightarrow> real list \<Rightarrow> 8 word list" where
  \<comment> \<open>Modelled from the spec: the byte payload of the frame made from the samples.\<close>
  "encode rnd xs = concat (map (\<lambda>x. le_bytes (to_int16 rnd x)) xs)"

definition from_le :: "8 word \<Rightarrow> 8 word \<Rightarrow> 16 word" where
  \<comment> \<open>Modelled from the spec: a 16-bit little-endian sample read from two bytes.\<close>
  "from_le lo hi = ucast lo OR push_bit 8 (ucast hi)"

fun int16s :: "8 word list \<Rightarrow> 16 word list" where
  "int16s (lo # hi # rest) = from_le lo hi # int16s rest"
| "int16s _ = []"

definition normalize_sample :: "16 word \<Rightarrow> real" where
  \<comment> \<open>Modelled from the spec: a signed 16-bit value back in the floating-point range.\<close>
  "normalize_sample w = real_of_int (sint w) / 32768"

definition decode :: "8 word list \<Rightarrow> error + real list" where
  \<comment> \<open>Modelled from the spec: decoding fails on an empty payload and on an odd length.\<close>
  "decode payload =
     (if payload = [] \<or> odd (length payload) then Inl CodecError
      else Inr (map normalize_sample (int16s payload)))"

section \<open>Concrete inputs\<close>

definition clock0 :: "nat \<Rightarrow> real" where
  "clock0 n = 0"

definition env0 :: handler_env where
  \<comment> \<open>both nested updaters of the turn-completion branch queued\<close>
  "env0 = \<lparr> clockAt = clock0, dateNowUser = 1000, dateNowModel = 1001,
            userUpdaterRan = False, modelUpdaterRan = False \<rparr>"

definition chunk_2400 :: AudioBuffer where
  \<comment> \<open>a tenth of a second at 24 kHz\<close>
  "chunk_2400 = \<lparr> buf_length = 2400, buf_sampleRate = 24000 \<rparr>"

definition dec_chunk :: "jsstring \<Rightarrow> error + AudioBuffer" where
  "dec_chunk d = Inr chunk_2400"

definition empty_message :: LiveServerMessage where
  "empty_message =
     \<lparr> modelTurnParts = None, outputTranscription = None, inputTranscription = None,
       turnComplete = False, interrupted = False \<rparr>"

definition two_chunks_message :: LiveServerMessage where
  "two_chunks_message =
     empty_message\<lparr> modelTurnParts :=
       Some [\<lparr> inlineData = Some (js ''AAAA'') \<rparr>, \<lparr> inlineData = Some (js ''AAAA'') \<rparr>] \<rparr>"

definition hi_message :: LiveServerMessage where
  "hi_message = empty_message\<lparr> outputTranscription := Some (Some (js ''hi'')) \<rparr>"

definition both_message :: LiveServerMessage where
  "both_message =
     empty_message\<lparr> outputTranscription := Some (Some (js ''hi'')),
                    inputTranscription := Some (Some (js ''yo'')) \<rparr>"

definition interrupted_message :: LiveServerMessage where
  "interrupted_message = empty_message\<lparr> interrupted := True \<rparr>"

definition turn_complete_message :: LiveServerMessage where
  "turn_complete_message = empty_message\<lparr> turnComplete := True \<rparr>"

definition user_message :: "string \<Rightarrow> LiveServerMessage" where
  "user_message s = empty_message\<lparr> inputTranscription := Some (Some (js s)) \<rparr>"

definition connected_trace :: "event list" where
  \<comment> \<open>the button, then the first invocation of \<open>startSession\<close> through its three awaits\<close>
  "connected_trace =
     [Click, AfterResume 0 True, AfterGetUserMedia 0 True, OnOpen 0, AfterConnect 0 True]"

definition active_state :: app_state where
  "active_state = run dec_chunk connected_trace initial_state"

definition hi_state :: app_state where
  "hi_state = step dec_chunk (OnMessage env0 hi_message) active_state"

definition hello_state :: app_state where
  "hello_state =
     step dec_chunk (OnMessage env0 (user_message ''lo''))
       (step dec_chunk (OnMessage env0 (user_message ''hel'')) active_state)"

definition two_units_state :: app_state where
  "two_units_state = step dec_chunk (OnMessage env0 two_chunks_message) active_state"

definition entry_at :: "int \<Rightarrow> TranscriptionEntry" where
  "entry_at i = \<lparr> role = Model, entry_text = js ''m'', timestamp = i \<rparr>"

definition refused_twice_trace :: "event list" where
  \<comment> \<open>a start whose connection is rejected, then a start whose microphone is refused\<close>
  "refused_twice_trace =
     [Click, AfterResume 0 True, AfterGetUserMedia 0 True, AfterConnect 0 False,
      Click, AfterResume 1 True, AfterGetUserMedia 1 False]"


section \<open>Evaluation of the concrete inputs\<close>

lemmas eval_defs =
  run_def step_def click_def startSession_def after_resume_def after_getUserMedia_def
  after_connect_def start_failed_def stopSession_def onopen_def
  onerror_def onclose_def onended_def onmessage_def play_part_def enqueue_def
  append_transcription_def text_of_def finalizeTurn_def newEntries_def splice_def
  slice_last_def interrupt_def stop_all_def try_stop_def stop_node_def set_add_def
  set_delete_def initial_state_def empty_message_def env0_def clock0_def dec_chunk_def
  chunk_2400_def duration_def js_def js_trim_def is_js_whitespace_def Let_def
  connected_trace_def

lemma active_state_value:
  "active_state =
     \<lparr> status = ACTIVE, transcriptions = [], liveUserText = [], liveModelText = [],
       userVolume = 0, modelVolume = 0, errorMessage = None,
       inputAudioContext = True, outputAudioContext = Some Running, outputNode = True,
       sources = [], sessionRef = Some 0, nextStartTime = 0, scriptProcessor = Some 0,
       started = [], playing = [], nodeCount = 0, openSessions = [0], connectCount = 1,
       connectedProcessors = [0], micStreams = 1, contextsCreated = 2, startCount = 1,
       awaitingResume = [], awaitingMic = [], awaitingConnect = [] \<rparr>"
  by (simp add: active_state_def eval_defs)

lemma two_units_state_eval:
  "sources two_units_state = [0, 1] \<and> playing two_units_state = [0, 1]
   \<and> outputAudioContext two_units_state = Some Running
   \<and> nextStartTime two_units_state = 1 / 5
   \<and> sessionRef two_units_state = Some 0 \<and> scriptProcessor two_units_state = Some 0
   \<and> openSessions two_units_state = [0] \<and> connectedProcessors two_units_state = [0]"
  by (simp add: two_units_state_def active_state_value two_chunks_message_def step_def
      onmessage_def play_part_def enqueue_def append_transcription_def empty_message_def
      env0_def clock0_def dec_chunk_def chunk_2400_def duration_def set_add_def js_def Let_def)

lemma two_units_state_value:
  "two_units_state =
     \<lparr> status = ACTIVE, transcriptions = [], liveUserText = [], liveModelText = [],
       userVolume = 0, modelVolume = 0, errorMessage = None,
       inputAudioContext = True, outputAudioContext = Some Running, outputNode = True,
       sources = [0, 1], sessionRef = Some 0, nextStartTime = 1 / 5,
       scriptProcessor = Some 0,
       started = [\<lparr> unit_node = 0, unit_start = 0, unit_duration = 1 / 10 \<rparr>,
                  \<lparr> unit_node = 1, unit_start = 1 / 10, unit_duration = 1 / 10 \<rparr>],
       playing = [0, 1], nodeCount = 2, openSessions = [0], connectCount = 1,
       connectedProcessors = [0], micStreams = 1, contextsCreated = 2, startCount = 1,
       awaitingResume = [], awaitingMic = [], awaitingConnect = [] \<rparr>"
  by (simp add: two_units_state_def active_state_value two_chunks_message_def step_def
      onmessage_def play_part_def enqueue_def append_transcription_def empty_message_def
      env0_def clock0_def dec_chunk_def chunk_2400_def duration_def set_add_def js_def Let_def)

lemma hi_state_eval:
  "liveModelText hi_state = js ''hi'' \<and> liveUserText hi_state = []
   \<and> transcriptions hi_state = [] \<and> status hi_state = ACTIVE"
  by (simp add: hi_state_def active_state_value hi_message_def step_def onmessage_def
      append_transcription_def text_of_def empty_message_def Let_def)

lemma hello_state_eval:
  "liveUserText hello_state = js ''hello'' \<and> liveModelText hello_state = []
   \<and> transcriptions hello_state = []"
  by (simp add: hello_state_def active_state_value user_message_def step_def onmessage_def
      append_transcription_def text_of_def empty_message_def js_def Let_def)

section \<open>Playback scheduling: proofs\<close>

lemma duration_nonneg: "0 \<le> duration b"
  by (simp add: duration_def)

lemma chain_no_overlap: "chain e us \<Longrightarrow> no_overlap us"
proof (induction us arbitrary: e rule: no_overlap.induct)
  case (1 u v us)
  from "1.prems" have "chain (unit_start u + unit_duration u) (v # us)" by simp
  then have "no_overlap (v # us)" by (rule "1.IH")
  with "1.prems" show ?case by simp
qed simp_all

lemma enqueue_all_started:
  "\<exists>us. started (enqueue_all ops st) = started st @ us \<and> chain (nextStartTime st) us"
proof (induction ops arbitrary: st)
  case Nil
  show ?case by simp
next
  case (Cons op ops)
  obtain t b where op: "op = (t, b)" by (cases op)
  let ?st1 = "enqueue t b st"
  let ?u = "\<lparr> unit_node = nodeCount st, unit_start = max (nextStartTime st) t,
              unit_duration = duration b \<rparr>"
  from Cons.IH [of ?st1] obtain us where
    us: "started (enqueue_all ops ?st1) = started ?st1 @ us" "chain (nextStartTime ?st1) us"
    by blast
  have s1: "started ?st1 = started st @ [?u]" and n1: "nextStartTime ?st1 = unit_start ?u + unit_duration ?u"
    by (simp_all add: enqueue_def Let_def)
  have "chain (nextStartTime st) (?u # us)"
    using us(2) n1 by (simp add: duration_nonneg)
  moreover have "started (enqueue_all (op # ops) st) = started st @ (?u # us)"
    using us(1) s1 op by simp
  ultimately show ?case by blast
qed

text \<open>
  C1.  An enqueue starts the new unit at the maximum of the watermark and the clock and
  moves the watermark to the end of that unit; hence the units started by any sequence of
  enqueues, from any state, are in non-decreasing start order and none starts before its
  predecessor has ended.
\<close>

theorem enqueue_no_overlap:
  "started (enqueue currentTime audioBuffer st) = started st @
      [\<lparr> unit_node = nodeCount st, unit_start = max (nextStartTime st) currentTime,
         unit_duration = duration audioBuffer \<rparr>]
   \<and> nextStartTime (enqueue currentTime audioBuffer st) =
       max (nextStartTime st) currentTime + duration audioBuffer
   \<and> length (started (enqueue_all ops st)) = length (started st) + length ops
   \<and> no_overlap (drop (length (started st)) (started (enqueue_all ops st)))"
proof -
  obtain us where us: "started (enqueue_all ops st) = started st @ us"
      "chain (nextStartTime st) us"
    using enqueue_all_started by blast
  have len: "length (started (enqueue_all ops st)) = length (started st) + length ops"
    by (induction ops arbitrary: st) (auto simp: enqueue_def Let_def)
  have "no_overlap us" using us(2) by (rule chain_no_overlap)
  then have "no_overlap (drop (length (started st)) (started (enqueue_all ops st)))"
    using us(1) by simp
  then show ?thesis using len by (simp add: enqueue_def Let_def)
qed

text \<open>
  The scenario of two chunks of 2400 frames arriving back to back on a clock at zero: the
  first unit starts at 0 and the second at 1/10, where the first ends.
\<close>

theorem enqueue_no_overlap_witness:
  "map unit_start (started (enqueue_all [(0, chunk_2400), (0, chunk_2400)] initial_state))
     = [0, 1 / 10]
   \<and> nextStartTime (enqueue 0 chunk_2400 initial_state) = 1 / 10
   \<and> no_overlap (started (enqueue_all [(0, chunk_2400), (0, chunk_2400)] initial_state))"
  using enqueue_no_overlap [of 0 chunk_2400 initial_state "[(0, chunk_2400), (0, chunk_2400)]"]
  by (simp add: enqueue_def initial_state_def chunk_2400_def duration_def set_add_def Let_def)

section \<open>Interruption: proofs\<close>

lemma try_stop_removeAll: "try_stop n pl = removeAll n pl"
  by (simp add: try_stop_def stop_node_def)

lemma stop_all_set: "set (stop_all srcs pl) = set pl - set srcs"
  unfolding stop_all_def
  by (induction srcs arbitrary: pl) (auto simp: try_stop_removeAll)

lemma fold_onended_idle:
  "sources st = [] \<Longrightarrow>
     sources (fold onended ns st) = [] \<and> nextStartTime (fold onended ns st) = nextStartTime st"
  by (induction ns arbitrary: st) (simp_all add: onended_def set_delete_def)

text \<open>
  C2.  The interruption branch stops every unit of the active set (a unit that no longer
  sounds is skipped, the exception being swallowed), empties the set and, the output
  context existing, puts the watermark at the clock reading; whatever \<open>onended\<close>
  callbacks fire afterwards, the set stays empty and the watermark stays at that reading.
\<close>

theorem interrupt_then_onended:
  assumes "outputAudioContext st \<noteq> None"
  shows "(\<forall>n \<in> set (sources st). n \<notin> set (playing (interrupt currentTime st)))
     \<and> (\<forall>n. n \<notin> set pl \<longrightarrow> try_stop n pl = pl)
     \<and> sources (interrupt currentTime st) = []
     \<and> nextStartTime (interrupt currentTime st) = currentTime
     \<and> sources (fold onended ns (interrupt currentTime st)) = []
     \<and> nextStartTime (fold onended ns (interrupt currentTime st)) = currentTime"
proof -
  have stopped: "\<forall>n \<in> set (sources st). n \<notin> set (playing (interrupt currentTime st))"
    by (simp add: interrupt_def stop_all_set)
  have noop: "\<forall>n. n \<notin> set pl \<longrightarrow> try_stop n pl = pl"
    by (simp add: try_stop_removeAll)
  have cleared: "sources (interrupt currentTime st) = []"
    by (simp add: interrupt_def)
  have mark: "nextStartTime (interrupt currentTime st) = currentTime"
    using assms by (auto simp: interrupt_def)
  from fold_onended_idle [OF cleared, of ns] mark stopped noop cleared
  show ?thesis by simp
qed

theorem interrupt_then_onended_witness:
  "outputAudioContext two_units_state \<noteq> None
   \<and> sources two_units_state = [0, 1]
   \<and> playing (interrupt (1 / 20) two_units_state) = []
   \<and> try_stop 0 [] = []
   \<and> sources (interrupt (1 / 20) two_units_state) = []
   \<and> nextStartTime (interrupt (1 / 20) two_units_state) = 1 / 20
   \<and> sources (fold onended [1, 0, 1] (interrupt (1 / 20) two_units_state)) = []
   \<and> nextStartTime (fold onended [1, 0, 1] (interrupt (1 / 20) two_units_state)) = 1 / 20"
  using interrupt_then_onended [of two_units_state "1 / 20" "[]" "[1, 0, 1]"]
    two_units_state_eval
  by (simp add: interrupt_def stop_all_def try_stop_def stop_node_def)

section \<open>What the audio branch leaves alone\<close>

lemma same_outside_playback_refl: "same_outside_playback st st"
  by (simp add: same_outside_playback_def)

lemma same_outside_playback_trans:
  "same_outside_playback a b \<Longrightarrow> same_outside_playback b c \<Longrightarrow> same_outside_playback a c"
  by (simp add: same_outside_playback_def)

lemma play_part_frame:
  assumes "play_part dec t p st = Inr st' \<or> play_part dec t p st = Inl (e, st')"
  shows "same_outside_playback st st'"
  using assms
  by (auto simp: same_outside_playback_def play_part_def enqueue_def Let_def
      split: option.splits if_splits sum.splits)

lemma play_parts_frame:
  assumes "play_parts dec clk i ps st = Inr st' \<or> play_parts dec clk i ps st = Inl (e, st')"
  shows "same_outside_playback st st'"
  using assms
proof (induction ps arbitrary: i st)
  case Nil
  then show ?case by (auto simp: same_outside_playback_refl)
next
  case (Cons p ps)
  show ?case
  proof (cases "play_part dec (clk i) p st")
    case (Inl a)
    with Cons.prems have "play_part dec (clk i) p st = Inl (e, st')" by simp
    then show ?thesis using play_part_frame by blast
  next
    case (Inr st1)
    with Cons.prems have
      "play_parts dec clk (Suc i) ps st1 = Inr st'
       \<or> play_parts dec clk (Suc i) ps st1 = Inl (e, st')"
      by simp
    from Cons.IH [OF this] have "same_outside_playback st1 st'" .
    moreover have "same_outside_playback st st1"
      using play_part_frame [of dec "clk i" p st st1 e] Inr by simp
    ultimately show ?thesis by (rule same_outside_playback_trans [rotated])
  qed
qed

text \<open>The two ways a run of \<open>onmessage\<close> ends, with the audio branch abstracted.\<close>

lemma onmessage_Inl:
  assumes "onmessage dec env message st = Inl (e, st')"
  shows "same_outside_playback st st'"
proof (cases "modelTurnParts message")
  case None
  with assms show ?thesis by (simp add: onmessage_def Let_def)
next
  case (Some parts)
  with assms have "play_parts dec (clockAt env) 0 parts st = Inl (e, st')"
    by (simp add: onmessage_def Let_def split: sum.splits)
  then show ?thesis using play_parts_frame by blast
qed

lemma onmessage_Inr:
  assumes "onmessage dec env message st = Inr st'"
  obtains st1 t where
    "same_outside_playback st st1"
    "st' = (let st2 = append_transcription message st1;
                st3 = (if turnComplete message then finalizeTurn env st2 else st2)
            in if interrupted message then interrupt t st3 else st3)"
proof (cases "modelTurnParts message")
  case None
  with assms have "st' = (let st2 = append_transcription message st;
                st3 = (if turnComplete message then finalizeTurn env st2 else st2)
            in if interrupted message then interrupt (clockAt env 0) st3 else st3)"
    by (auto simp: onmessage_def Let_def)
  then show ?thesis
    using that [of st "clockAt env 0"] by (simp add: same_outside_playback_refl)
next
  case (Some parts)
  with assms obtain st1 where p: "play_parts dec (clockAt env) 0 parts st = Inr st1"
    and s: "st' = (let st2 = append_transcription message st1;
                st3 = (if turnComplete message then finalizeTurn env st2 else st2)
            in if interrupted message then interrupt (clockAt env (length parts)) st3 else st3)"
    by (auto simp: onmessage_def Let_def split: sum.splits)
  from p have "play_parts dec (clockAt env) 0 parts st = Inr st1
     \<or> play_parts dec (clockAt env) 0 parts st = Inl (CodecError, st1)" by simp
  from play_parts_frame [OF this] s show ?thesis
    using that [of st1 "clockAt env (length parts)"] by simp
qed


section \<open>Transcription fragments: proofs\<close>

text \<open>
  C10.  When a message carries an output and an input transcription, the output fragment
  is appended to the model accumulator and the user accumulator is left as it was: by the
  branch of lines 146 to 150, and by the whole handler when the message completes no turn.
\<close>

theorem output_transcription_shadows_input:
  assumes "outputTranscription message = Some ot" and "inputTranscription message = Some it"
  shows "liveModelText (append_transcription message st) = liveModelText st @ text_of ot
     \<and> liveUserText (append_transcription message st) = liveUserText st
     \<and> (\<forall>st'. onmessage dec env message st = Inr st' \<and> \<not> turnComplete message \<longrightarrow>
           liveModelText st' = liveModelText st @ text_of ot
           \<and> liveUserText st' = liveUserText st)"
proof -
  have a: "\<And>s. liveModelText (append_transcription message s) = liveModelText s @ text_of ot"
    and b: "\<And>s. liveUserText (append_transcription message s) = liveUserText s"
    using assms(1) by (simp_all add: append_transcription_def)
  have c: "liveModelText st' = liveModelText st @ text_of ot \<and> liveUserText st' = liveUserText st"
    if run: "onmessage dec env message st = Inr st'" and nt: "\<not> turnComplete message" for st'
  proof -
    from run obtain st1 t where fr: "same_outside_playback st st1"
      and eq: "st' = (let st2 = append_transcription message st1;
                st3 = (if turnComplete message then finalizeTurn env st2 else st2)
            in if interrupted message then interrupt t st3 else st3)"
      by (rule onmessage_Inr)
    from fr have st1: "liveUserText st1 = liveUserText st" "liveModelText st1 = liveModelText st"
      by (simp_all add: same_outside_playback_def)
    from eq nt have "liveModelText st' = liveModelText (append_transcription message st1)
        \<and> liveUserText st' = liveUserText (append_transcription message st1)"
      by (simp add: Let_def interrupt_def)
    with a b st1 show ?thesis by simp
  qed
  from a b c show ?thesis by blast
qed

theorem output_transcription_shadows_input_witness:
  "outputTranscription both_message = Some (Some (js ''hi''))
   \<and> inputTranscription both_message = Some (Some (js ''yo''))
   \<and> liveModelText (append_transcription both_message initial_state) = js ''hi''
   \<and> liveUserText (append_transcription both_message initial_state) = []
   \<and> onmessage dec_chunk env0 both_message initial_state
       = Inr (initial_state\<lparr> liveModelText := js ''hi'' \<rparr>)"
  using output_transcription_shadows_input
    [of both_message "Some (js ''hi'')" "Some (js ''yo'')" initial_state dec_chunk env0]
  by (simp add: both_message_def empty_message_def onmessage_def append_transcription_def
      text_of_def initial_state_def Let_def)

section \<open>Partial text: proofs\<close>

lemma stopSession_texts:
  "liveUserText (stopSession st) = [] \<and> liveModelText (stopSession st) = []"
  by (simp add: stopSession_def Let_def split: option.splits)

lemma stopSession_log: "transcriptions (stopSession st) = transcriptions st"
  by (simp add: stopSession_def Let_def split: option.splits)

lemma append_transcription_prefix:
  "prefix (liveUserText s) (liveUserText (append_transcription m s))
   \<and> prefix (liveModelText s) (liveModelText (append_transcription m s))"
  by (simp add: append_transcription_def split: option.splits)

lemma start_texts:
  "liveUserText (startSession st) = liveUserText st
   \<and> liveModelText (startSession st) = liveModelText st
   \<and> transcriptions (startSession st) = transcriptions st"
  "liveUserText (after_resume k b st) = liveUserText st
   \<and> liveModelText (after_resume k b st) = liveModelText st
   \<and> transcriptions (after_resume k b st) = transcriptions st"
  "liveUserText (after_getUserMedia k b st) = liveUserText st
   \<and> liveModelText (after_getUserMedia k b st) = liveModelText st
   \<and> transcriptions (after_getUserMedia k b st) = transcriptions st"
  "liveUserText (after_connect k b st) = liveUserText st
   \<and> liveModelText (after_connect k b st) = liveModelText st
   \<and> transcriptions (after_connect k b st) = transcriptions st"
  by (simp_all add: startSession_def after_resume_def after_getUserMedia_def
      after_connect_def start_failed_def Let_def)

lemma onmessage_texts:
  "(clears_partial (OnMessage env m) st \<and> \<not> aborts dec (OnMessage env m) st \<longrightarrow>
      liveUserText (step dec (OnMessage env m) st) = []
      \<and> liveModelText (step dec (OnMessage env m) st) = [])
   \<and> (\<not> clears_partial (OnMessage env m) st \<or> aborts dec (OnMessage env m) st \<longrightarrow>
        prefix (liveUserText st) (liveUserText (step dec (OnMessage env m) st))
        \<and> prefix (liveModelText st) (liveModelText (step dec (OnMessage env m) st)))"
proof (cases "onmessage dec env m st")
  case (Inl a)
  obtain e st' where a: "a = (e, st')" by (cases a)
  from onmessage_Inl [of dec env m st e st'] Inl a
  show ?thesis by (simp add: step_def aborts_def same_outside_playback_def)
next
  case (Inr st')
  then obtain st1 t where fr: "same_outside_playback st st1"
    and eq: "st' = (let st2 = append_transcription m st1;
                st3 = (if turnComplete m then finalizeTurn env st2 else st2)
            in if interrupted m then interrupt t st3 else st3)"
    by (rule onmessage_Inr)
  from fr have st1: "liveUserText st1 = liveUserText st" "liveModelText st1 = liveModelText st"
    by (simp_all add: same_outside_playback_def)
  show ?thesis
  proof (cases "turnComplete m")
    case True
    with eq have "liveUserText st' = [] \<and> liveModelText st' = []"
      by (simp add: Let_def interrupt_def finalizeTurn_def)
    with True Inr show ?thesis by (simp add: step_def aborts_def clears_partial_def)
  next
    case False
    with eq have "liveUserText st' = liveUserText (append_transcription m st1)
        \<and> liveModelText st' = liveModelText (append_transcription m st1)"
      by (simp add: Let_def interrupt_def)
    with append_transcription_prefix [of st1 m] st1
    have "prefix (liveUserText st) (liveUserText st')
        \<and> prefix (liveModelText st) (liveModelText st')" by simp
    with False Inr show ?thesis by (simp add: step_def aborts_def clears_partial_def)
  qed
qed

text \<open>
  C3, as the code has it.  The interruption branch touches neither accumulator nor the
  log.  An event that reaches the turn-completion branch or \<open>stopSession\<close> (a message
  with \<open>turnComplete\<close> whose audio decodes, a transport error, a close of the connection,
  the button while \<open>ACTIVE\<close>) empties both accumulators; every other event leaves the text
  accumulated so far in place, as a prefix of the new value.
\<close>

theorem partial_text_cleared_only_at_turn_or_stop:
  "liveUserText (interrupt t st) = liveUserText st
   \<and> liveModelText (interrupt t st) = liveModelText st
   \<and> transcriptions (interrupt t st) = transcriptions st
   \<and> (clears_partial ev st \<and> \<not> aborts dec ev st \<longrightarrow>
        liveUserText (step dec ev st) = [] \<and> liveModelText (step dec ev st) = [])
   \<and> (\<not> clears_partial ev st \<or> aborts dec ev st \<longrightarrow>
        prefix (liveUserText st) (liveUserText (step dec ev st))
        \<and> prefix (liveModelText st) (liveModelText (step dec ev st)))"
proof -
  have i: "liveUserText (interrupt t st) = liveUserText st
      \<and> liveModelText (interrupt t st) = liveModelText st
      \<and> transcriptions (interrupt t st) = transcriptions st"
    by (simp add: interrupt_def)
  have e: "(clears_partial ev st \<and> \<not> aborts dec ev st \<longrightarrow>
        liveUserText (step dec ev st) = [] \<and> liveModelText (step dec ev st) = [])
   \<and> (\<not> clears_partial ev st \<or> aborts dec ev st \<longrightarrow>
        prefix (liveUserText st) (liveUserText (step dec ev st))
        \<and> prefix (liveModelText st) (liveModelText (step dec ev st)))"
  proof (cases ev)
    case Click
    then show ?thesis
      using stopSession_texts [of st] start_texts(1) [of st]
      by (simp add: step_def click_def clears_partial_def aborts_def)
  next
    case (AfterResume k b)
    then show ?thesis
      using start_texts(2) [of k b st] by (simp add: step_def clears_partial_def aborts_def)
  next
    case (AfterGetUserMedia k b)
    then show ?thesis
      using start_texts(3) [of k b st] by (simp add: step_def clears_partial_def aborts_def)
  next
    case (AfterConnect k b)
    then show ?thesis
      using start_texts(4) [of k b st] by (simp add: step_def clears_partial_def aborts_def)
  next
    case (OnOpen k)
    then show ?thesis by (simp add: step_def onopen_def clears_partial_def aborts_def)
  next
    case (OnMessage env m)
    then show ?thesis using onmessage_texts [of env m st dec] by simp
  next
    case OnError
    then show ?thesis
      using stopSession_texts [of "st\<lparr> errorMessage := Some ''SUPRA neural link disrupted.'' \<rparr>"]
      by (simp add: step_def onerror_def clears_partial_def aborts_def)
  next
    case (OnClose k)
    then show ?thesis
      using stopSession_texts [of "st\<lparr> openSessions := removeAll k (openSessions st) \<rparr>"]
      by (simp add: step_def onclose_def clears_partial_def aborts_def)
  next
    case (OnEnded n)
    then show ?thesis by (simp add: step_def onended_def clears_partial_def aborts_def)
  qed
  from i e show ?thesis by blast
qed

theorem partial_text_cleared_only_at_turn_or_stop_witness:
  "\<not> clears_partial (OnMessage env0 interrupted_message) hi_state
   \<and> liveModelText (step dec_chunk (OnMessage env0 interrupted_message) hi_state) = js ''hi''
   \<and> clears_partial (OnMessage env0 turn_complete_message) hi_state
   \<and> \<not> aborts dec_chunk (OnMessage env0 turn_complete_message) hi_state
   \<and> liveModelText (step dec_chunk (OnMessage env0 turn_complete_message) hi_state) = []"
  using partial_text_cleared_only_at_turn_or_stop
      [of 0 hi_state "OnMessage env0 interrupted_message" dec_chunk]
    partial_text_cleared_only_at_turn_or_stop
      [of 0 hi_state "OnMessage env0 turn_complete_message" dec_chunk]
    hi_state_eval
  by (simp add: clears_partial_def aborts_def interrupted_message_def
      turn_complete_message_def step_def onmessage_def append_transcription_def
      finalizeTurn_def interrupt_def empty_message_def Let_def)

text \<open>
  The claim as the specification words it fails twice: text accumulated before an
  interruption is still in the model accumulator after it, and a close of the connection,
  which is neither a turn completion nor an interruption, empties the accumulator.
\<close>

theorem interruption_keeps_partial_text:
  "liveModelText hi_state = js ''hi''
   \<and> js ''hi'' \<noteq> []
   \<and> liveModelText (step dec_chunk (OnMessage env0 interrupted_message) hi_state) = js ''hi''
   \<and> liveModelText (step dec_chunk (OnClose 0) hi_state) = []"
  using hi_state_eval stopSession_texts [of "hi_state\<lparr> openSessions := removeAll 0 (openSessions hi_state) \<rparr>"]
  by (simp add: interrupted_message_def step_def onmessage_def onclose_def
      append_transcription_def interrupt_def empty_message_def js_def Let_def)

section \<open>Turn completion and the transcript log: proofs\<close>

lemma slice_last_length: "length (slice_last n xs) = min n (length xs)"
  by (simp add: slice_last_def)

lemma slice_last_suffix: "suffix (slice_last n xs) xs"
  unfolding slice_last_def by (rule suffix_drop)

lemma splice_length: "length (splice prev entries) = min 15 (length prev + length entries)"
  by (simp add: splice_def slice_last_length)

lemma step_log_bounded:
  assumes "length (transcriptions st) \<le> 15"
  shows "length (transcriptions (step dec ev st)) \<le> 15"
proof (cases ev)
  case Click
  then show ?thesis
    using assms start_texts(1) [of st] stopSession_log [of st]
    by (simp add: step_def click_def)
next
  case (AfterResume k b)
  then show ?thesis using assms start_texts(2) [of k b st] by (simp add: step_def)
next
  case (AfterGetUserMedia k b)
  then show ?thesis using assms start_texts(3) [of k b st] by (simp add: step_def)
next
  case (AfterConnect k b)
  then show ?thesis using assms start_texts(4) [of k b st] by (simp add: step_def)
next
  case (OnOpen k)
  then show ?thesis using assms by (simp add: step_def onopen_def)
next
  case (OnMessage env m)
  show ?thesis
  proof (cases "onmessage dec env m st")
    case (Inl a)
    obtain e st' where a: "a = (e, st')" by (cases a)
    from onmessage_Inl [of dec env m st e st'] Inl a assms OnMessage
    show ?thesis by (simp add: step_def same_outside_playback_def)
  next
    case (Inr st')
    then obtain st1 t where fr: "same_outside_playback st st1"
      and eq: "st' = (let st2 = append_transcription m st1;
                st3 = (if turnComplete m then finalizeTurn env st2 else st2)
            in if interrupted m then interrupt t st3 else st3)"
      by (rule onmessage_Inr)
    from fr have st1: "transcriptions st1 = transcriptions st"
      by (simp add: same_outside_playback_def)
    have ap: "transcriptions (append_transcription m st1) = transcriptions st1"
      by (simp add: append_transcription_def split: option.splits)
    have "length (transcriptions st') \<le> 15"
      using eq ap st1 assms
      by (simp add: Let_def interrupt_def finalizeTurn_def splice_length)
    with Inr OnMessage show ?thesis by (simp add: step_def)
  qed
next
  case OnError
  then show ?thesis
    using assms
      stopSession_log [of "st\<lparr> errorMessage := Some ''SUPRA neural link disrupted.'' \<rparr>"]
    by (simp add: step_def onerror_def)
next
  case (OnClose k)
  then show ?thesis
    using assms stopSession_log [of "st\<lparr> openSessions := removeAll k (openSessions st) \<rparr>"]
    by (simp add: step_def onclose_def)
next
  case (OnEnded n)
  then show ?thesis using assms by (simp add: step_def onended_def)
qed

lemma run_log_bounded_from:
  "length (transcriptions st) \<le> 15 \<Longrightarrow> length (transcriptions (run dec evs st)) \<le> 15"
  unfolding run_def
  by (induction evs arbitrary: st) (simp_all add: step_log_bounded)

lemma run_log_bounded: "length (transcriptions (run dec evs initial_state)) \<le> 15"
  by (rule run_log_bounded_from) (simp add: initial_state_def)

text \<open>
  C4.  The claim does not hold of the code.  The user has said \<open>hello\<close> in two fragments
  and a message with \<open>turnComplete\<close> arrives while React queues the two nested updaters:
  line 163 finds \<open>newEntries\<close> empty, the log stays empty, and both accumulators are
  emptied, so the text of the turn is lost where the claim has one entry appended.
\<close>

theorem turn_completion_loses_entries:
  "liveUserText hello_state = js ''hello''
   \<and> js_trim (liveUserText hello_state) = js ''hello''
   \<and> transcriptions hello_state = []
   \<and> userUpdaterRan env0 = False \<and> modelUpdaterRan env0 = False
   \<and> transcriptions (step dec_chunk (OnMessage env0 turn_complete_message) hello_state) = []
   \<and> liveUserText (step dec_chunk (OnMessage env0 turn_complete_message) hello_state) = []
   \<and> liveModelText (step dec_chunk (OnMessage env0 turn_complete_message) hello_state) = []"
  using hello_state_eval
  by (simp add: turn_complete_message_def step_def onmessage_def append_transcription_def
      finalizeTurn_def newEntries_def splice_def slice_last_def empty_message_def env0_def
      js_def js_trim_def is_js_whitespace_def Let_def)

text \<open>
  C5.  In every state reachable from the initial one the log holds at most 15 entries.  A
  turn completion replaces the log by the splice of line 163 of the old log and the
  entries found in \<open>newEntries\<close>; whatever these entries are, the splice is a suffix of
  the old log followed by them, in order, of length 15 or of the whole length if shorter:
  the oldest entries go first and the most recent 15 stay.
\<close>

theorem transcript_log_bounded:
  "length (transcriptions (run dec evs initial_state)) \<le> 15
   \<and> transcriptions (finalizeTurn env st) = splice (transcriptions st) (newEntries env st)
   \<and> suffix (splice prev entries) (prev @ entries)
   \<and> length (splice prev entries) = min 15 (length prev + length entries)"
proof -
  have "transcriptions (finalizeTurn env st) = splice (transcriptions st) (newEntries env st)"
    by (simp add: finalizeTurn_def)
  moreover have "suffix (splice prev entries) (prev @ entries)"
    unfolding splice_def by (rule slice_last_suffix)
  ultimately show ?thesis
    using run_log_bounded [of dec evs] splice_length [of prev entries] by simp
qed

text \<open>With 15 entries in the log, one more evicts the oldest, the entry stamped 0.\<close>

theorem transcript_log_bounded_witness:
  "map timestamp
     (splice (map entry_at [0, 1, 2, 3, 4, 5, 6, 7, 8, 9, 10, 11, 12, 13, 14])
        [entry_at 1000])
     = [1, 2, 3, 4, 5, 6, 7, 8, 9, 10, 11, 12, 13, 14, 1000]
   \<and> length (splice (map entry_at [0, 1, 2, 3, 4, 5, 6, 7, 8, 9, 10, 11, 12, 13, 14])
        [entry_at 1000]) = 15
   \<and> length (transcriptions (run dec_chunk [] initial_state)) \<le> 15"
  using transcript_log_bounded
    [of dec_chunk "[]" env0 initial_state
      "map entry_at [0, 1, 2, 3, 4, 5, 6, 7, 8, 9, 10, 11, 12, 13, 14]" "[entry_at 1000]"]
  by (simp add: entry_at_def splice_def slice_last_def initial_state_def run_def)

section \<open>Session lifecycle: proofs\<close>

lemma stopSession_errorMessage:
  "stopSession (st\<lparr> errorMessage := m \<rparr>) = (stopSession st)\<lparr> errorMessage := m \<rparr>"
  by (simp add: stopSession_def Let_def split: option.splits)

text \<open>
  C6, as the code has it.  An error reported to the \<open>onerror\<close> callback records its
  message and runs \<open>stopSession\<close>, so the teardown is that of a close and the status ends
  \<open>IDLE\<close>; no start and no connection is attempted.  A refused microphone and a rejected
  connection lead to the \<open>catch\<close> block of \<open>startSession\<close>, which sets \<open>ERROR\<close> and the
  microphone message and leaves the session handle, the open sessions, the script
  processor, the connected processors, the playback units and the microphone streams as
  they were, again without a new attempt.
\<close>

theorem error_paths:
  "onerror st = (stopSession st)\<lparr> errorMessage := Some ''SUPRA neural link disrupted.'' \<rparr>
   \<and> status (onerror st) = IDLE
   \<and> sessionRef (onerror st) = None
   \<and> connectCount (onerror st) = connectCount st
   \<and> startCount (onerror st) = startCount st
   \<and> (k \<in> set (awaitingMic st) \<longrightarrow>
        status (after_getUserMedia k False st) = ERROR
        \<and> errorMessage (after_getUserMedia k False st)
             = Some ''SUPRA requires microphone access to initialize.''
        \<and> sessionRef (after_getUserMedia k False st) = sessionRef st
        \<and> openSessions (after_getUserMedia k False st) = openSessions st
        \<and> scriptProcessor (after_getUserMedia k False st) = scriptProcessor st
        \<and> connectedProcessors (after_getUserMedia k False st) = connectedProcessors st
        \<and> sources (after_getUserMedia k False st) = sources st
        \<and> playing (after_getUserMedia k False st) = playing st
        \<and> micStreams (after_getUserMedia k False st) = micStreams st
        \<and> connectCount (after_getUserMedia k False st) = connectCount st
        \<and> startCount (after_getUserMedia k False st) = startCount st)
   \<and> (k \<in> set (awaitingConnect st) \<longrightarrow>
        status (after_connect k False st) = ERROR
        \<and> errorMessage (after_connect k False st)
             = Some ''SUPRA requires microphone access to initialize.''
        \<and> sessionRef (after_connect k False st) = sessionRef st
        \<and> openSessions (after_connect k False st) = openSessions st
        \<and> scriptProcessor (after_connect k False st) = scriptProcessor st
        \<and> connectedProcessors (after_connect k False st) = connectedProcessors st
        \<and> sources (after_connect k False st) = sources st
        \<and> playing (after_connect k False st) = playing st
        \<and> micStreams (after_connect k False st) = micStreams st
        \<and> connectCount (after_connect k False st) = connectCount st
        \<and> startCount (after_connect k False st) = startCount st)"
proof -
  have a: "onerror st
      = (stopSession st)\<lparr> errorMessage := Some ''SUPRA neural link disrupted.'' \<rparr>"
    by (simp add: onerror_def stopSession_errorMessage)
  have b: "status (stopSession st) = IDLE \<and> sessionRef (stopSession st) = None
      \<and> connectCount (stopSession st) = connectCount st
      \<and> startCount (stopSession st) = startCount st"
    by (simp add: stopSession_def Let_def split: option.splits)
  have c: "k \<in> set (awaitingMic st) \<longrightarrow>
        status (after_getUserMedia k False st) = ERROR
        \<and> errorMessage (after_getUserMedia k False st)
             = Some ''SUPRA requires microphone access to initialize.''
        \<and> sessionRef (after_getUserMedia k False st) = sessionRef st
        \<and> openSessions (after_getUserMedia k False st) = openSessions st
        \<and> scriptProcessor (after_getUserMedia k False st) = scriptProcessor st
        \<and> connectedProcessors (after_getUserMedia k False st) = connectedProcessors st
        \<and> sources (after_getUserMedia k False st) = sources st
        \<and> playing (after_getUserMedia k False st) = playing st
        \<and> micStreams (after_getUserMedia k False st) = micStreams st
        \<and> connectCount (after_getUserMedia k False st) = connectCount st
        \<and> startCount (after_getUserMedia k False st) = startCount st"
    by (simp add: after_getUserMedia_def start_failed_def Let_def)
  have d: "k \<in> set (awaitingConnect st) \<longrightarrow>
        status (after_connect k False st) = ERROR
        \<and> errorMessage (after_connect k False st)
             = Some ''SUPRA requires microphone access to initialize.''
        \<and> sessionRef (after_connect k False st) = sessionRef st
        \<and> openSessions (after_connect k False st) = openSessions st
        \<and> scriptProcessor (after_connect k False st) = scriptProcessor st
        \<and> connectedProcessors (after_connect k False st) = connectedProcessors st
        \<and> sources (after_connect k False st) = sources st
        \<and> playing (after_connect k False st) = playing st
        \<and> micStreams (after_connect k False st) = micStreams st
        \<and> connectCount (after_connect k False st) = connectCount st
        \<and> startCount (after_connect k False st) = startCount st"
    by (simp add: after_connect_def start_failed_def Let_def)
  from a b c d show ?thesis by simp
qed

lemma refused_twice_eval:
  "status (run dec_chunk refused_twice_trace initial_state) = ERROR
   \<and> scriptProcessor (run dec_chunk refused_twice_trace initial_state) = Some 0
   \<and> errorMessage (run dec_chunk refused_twice_trace initial_state)
       = Some ''SUPRA requires microphone access to initialize.''"
  by (simp add: refused_twice_trace_def eval_defs)

theorem error_paths_witness:
  "status (onerror active_state) = IDLE
   \<and> errorMessage (onerror active_state) = Some ''SUPRA neural link disrupted.''
   \<and> openSessions (onerror active_state) = []
   \<and> connectedProcessors (onerror active_state) = []
   \<and> 0 \<in> set (awaitingMic (after_resume 0 True (startSession initial_state)))
   \<and> status (after_getUserMedia 0 False (after_resume 0 True (startSession initial_state)))
       = ERROR
   \<and> 0 \<in> set (awaitingConnect
                (after_getUserMedia 0 True (after_resume 0 True (startSession initial_state))))
   \<and> status (after_connect 0 False
               (after_getUserMedia 0 True (after_resume 0 True (startSession initial_state))))
       = ERROR"
  using error_paths [of active_state]
    error_paths [of "after_resume 0 True (startSession initial_state)" 0]
    error_paths
      [of "after_getUserMedia 0 True (after_resume 0 True (startSession initial_state))" 0]
  by (simp add: active_state_value stopSession_def startSession_def after_resume_def
      after_getUserMedia_def after_connect_def start_failed_def initial_state_def Let_def)

text \<open>
  The claim as the specification words it fails twice.  After a transport error on an
  active session the status is \<open>IDLE\<close>, not \<open>ERROR\<close>.  And a refused microphone runs no
  teardown: after a start whose connection was rejected and a start whose microphone was
  refused, the script processor of the first start is still held, where \<open>stopSession\<close>
  would have dropped it.
\<close>

theorem transport_error_ends_idle:
  "status (step dec_chunk OnError active_state) = IDLE
   \<and> errorMessage (step dec_chunk OnError active_state)
        = Some ''SUPRA neural link disrupted.''
   \<and> status (run dec_chunk refused_twice_trace initial_state) = ERROR
   \<and> scriptProcessor (run dec_chunk refused_twice_trace initial_state) = Some 0
   \<and> scriptProcessor (stopSession (run dec_chunk refused_twice_trace initial_state)) = None"
  using refused_twice_eval
  by (simp add: active_state_value step_def onerror_def stopSession_def Let_def
      split: option.splits)










lemma run_append: "run dec (xs @ ys) st = run dec ys (run dec xs st)"
  by (simp add: run_def)






lemma stopSession_fields:
  "status (stopSession st) = IDLE \<and> nextStartTime (stopSession st) = 0
   \<and> sessionRef (stopSession st) = None \<and> scriptProcessor (stopSession st) = None
   \<and> sources (stopSession st) = []
   \<and> userVolume (stopSession st) = 0 \<and> modelVolume (stopSession st) = 0
   \<and> playing (stopSession st) = stop_all (sources st) (playing st)
   \<and> micStreams (stopSession st) = micStreams st
   \<and> inputAudioContext (stopSession st) = inputAudioContext st
   \<and> outputAudioContext (stopSession st) = outputAudioContext st"
  by (simp add: stopSession_def Let_def split: option.splits)

lemma stopSession_closed:
  "(\<forall>s. sessionRef st = Some s \<longrightarrow> s \<notin> set (openSessions (stopSession st)))
   \<and> (\<forall>p. scriptProcessor st = Some p \<longrightarrow> p \<notin> set (connectedProcessors (stopSession st)))
   \<and> (sessionRef st = None \<longrightarrow> openSessions (stopSession st) = openSessions st)
   \<and> (scriptProcessor st = None \<longrightarrow>
        connectedProcessors (stopSession st) = connectedProcessors st)"
  by (simp add: stopSession_def Let_def split: option.splits)

lemma stopSession_idem: "stopSession (stopSession st) = stopSession st"
proof -
  have none: "sessionRef (stopSession st) = None" "scriptProcessor (stopSession st) = None"
      "sources (stopSession st) = []"
    using stopSession_fields [of st] by simp_all
  have "stopSession (stopSession st)
      = (stopSession st)\<lparr> playing := playing (stopSession st), sources := [],
           status := IDLE, userVolume := 0, modelVolume := 0,
           liveUserText := [], liveModelText := [], nextStartTime := 0 \<rparr>"
    using none by (simp add: stopSession_def [of "stopSession st"] stop_all_def Let_def)
  also have "\<dots> = stopSession st"
    using stopSession_fields [of st] stopSession_texts [of st] by simp
  finally show ?thesis .
qed

text \<open>
  C9, as the code has it.  From any state \<open>stopSession\<close> ends with the status \<open>IDLE\<close> and
  the watermark at zero; the session held is closed and dropped, the script processor
  held is disconnected and dropped, every unit of the active set has stopped sounding and
  the set is empty, both accumulators are empty.  A unit that no longer sounds is skipped,
  and a second call finds nothing left to close: the function is idempotent.  The
  microphone stream and the two audio contexts are not touched.
\<close>

theorem stopSession_teardown:
  "status (stopSession st) = IDLE
   \<and> nextStartTime (stopSession st) = 0
   \<and> sessionRef (stopSession st) = None
   \<and> (\<forall>s. sessionRef st = Some s \<longrightarrow> s \<notin> set (openSessions (stopSession st)))
   \<and> scriptProcessor (stopSession st) = None
   \<and> (\<forall>p. scriptProcessor st = Some p \<longrightarrow> p \<notin> set (connectedProcessors (stopSession st)))
   \<and> sources (stopSession st) = []
   \<and> (\<forall>n \<in> set (sources st). n \<notin> set (playing (stopSession st)))
   \<and> liveUserText (stopSession st) = [] \<and> liveModelText (stopSession st) = []
   \<and> stopSession (stopSession st) = stopSession st
   \<and> (\<forall>n. n \<notin> set (playing st) \<longrightarrow> try_stop n (playing st) = playing st)
   \<and> micStreams (stopSession st) = micStreams st
   \<and> inputAudioContext (stopSession st) = inputAudioContext st
   \<and> outputAudioContext (stopSession st) = outputAudioContext st"
proof -
  have stopped: "\<forall>n \<in> set (sources st). n \<notin> set (playing (stopSession st))"
    using stopSession_fields [of st] by (simp add: stop_all_set)
  have skip: "\<forall>n. n \<notin> set (playing st) \<longrightarrow> try_stop n (playing st) = playing st"
    by (simp add: try_stop_removeAll)
  from stopSession_fields [of st] stopSession_closed [of st] stopSession_texts [of st]
    stopSession_idem [of st] stopped skip
  show ?thesis by simp
qed

theorem stopSession_teardown_witness:
  "sessionRef two_units_state = Some 0 \<and> scriptProcessor two_units_state = Some 0
   \<and> sources two_units_state = [0, 1]
   \<and> status (stopSession two_units_state) = IDLE
   \<and> openSessions (stopSession two_units_state) = []
   \<and> connectedProcessors (stopSession two_units_state) = []
   \<and> playing (stopSession two_units_state) = []
   \<and> stopSession (stopSession two_units_state) = stopSession two_units_state
   \<and> try_stop 0 [] = []"
  using stopSession_teardown [of two_units_state]
  by (simp add: two_units_state_value stopSession_def stop_all_def try_stop_def
      stop_node_def Let_def)

text \<open>
  The claim as the specification words it fails for the microphone: the stream obtained by
  \<open>getUserMedia\<close> when the session started is still open after \<open>stopSession\<close>.
\<close>

theorem stopSession_keeps_microphone:
  "micStreams (run dec_chunk connected_trace initial_state) = 1
   \<and> micStreams (stopSession (run dec_chunk connected_trace initial_state)) = 1
   \<and> micStreams (run dec_chunk (connected_trace @ [Click]) initial_state) = 1"
proof -
  have a: "run dec_chunk connected_trace initial_state = active_state"
    by (simp add: active_state_def)
  have b: "run dec_chunk (connected_trace @ [Click]) initial_state = click active_state"
    unfolding run_append a by (simp add: run_def step_def)
  show ?thesis
    unfolding a b
    by (simp add: active_state_value click_def stopSession_def stop_all_def Let_def)
qed

section \<open>PCM frame codec: proofs\<close>

lemma from_le_le_bytes: "from_le (ucast w) (ucast (drop_bit 8 w)) = (w :: 16 word)"
  unfolding from_le_def
  by (rule bit_word_eqI) (auto simp: bit_simps)

lemma int16s_encode: "int16s (encode rnd xs) = map (to_int16 rnd) xs"
  by (induction xs) (simp_all add: encode_def le_bytes_def from_le_le_bytes)

lemma length_encode: "length (encode rnd xs) = 2 * length xs"
  by (induction xs) (simp_all add: encode_def le_bytes_def)

lemma sint_clamp16: "sint (word_of_int (clamp16 i) :: 16 word) = clamp16 i"
  by (simp add: clamp16_def sint_sbintrunc' signed_take_bit_int_eq_self_iff)

lemma quantization_error:
  assumes rnd: "\<forall>y. \<bar>real_of_int (rnd y) - y\<bar> < 1" and x: "- 1 \<le> x" "x \<le> 1"
  shows "\<bar>normalize_sample (to_int16 rnd x) - x\<bar> \<le> 1 / 32768"
proof -
  let ?y = "x * 32768"
  have r: "\<bar>real_of_int (rnd ?y) - ?y\<bar> < 1" using rnd by blast
  have "\<bar>real_of_int (clamp16 (rnd ?y)) - ?y\<bar> \<le> 1"
    using r x unfolding clamp16_def by (auto simp: max_def min_def abs_if split: if_splits)
  then show ?thesis
    by (simp add: normalize_sample_def to_int16_def sint_clamp16 abs_if field_simps
        split: if_splits)
qed

text \<open>
  C7.  With any rounding that moves a value by less than one, a non-empty sequence of
  samples of [-1, 1] encodes to a payload that decodes to as many samples, each within one
  16-bit step (1/32768) of the original; and decoding fails, with \<open>CodecError\<close>, exactly
  on the empty payload and on payloads of odd length.
\<close>

theorem codec_round_trip:
  assumes "\<forall>y. \<bar>real_of_int (rnd y) - y\<bar> < 1"
    and "xs \<noteq> []" and "\<forall>x \<in> set xs. - 1 \<le> x \<and> x \<le> 1"
  shows "(\<exists>ys. decode (encode rnd xs) = Inr ys \<and> length ys = length xs
            \<and> (\<forall>i < length xs. \<bar>ys ! i - xs ! i\<bar> \<le> 1 / 32768))
     \<and> (\<forall>payload. (\<exists>e. decode payload = Inl e) \<longleftrightarrow> payload = [] \<or> odd (length payload))
     \<and> (\<forall>payload. payload = [] \<or> odd (length payload) \<longrightarrow> decode payload = Inl CodecError)"
proof -
  let ?ys = "map (\<lambda>x. normalize_sample (to_int16 rnd x)) xs"
  have ne: "encode rnd xs \<noteq> []"
    using assms(2) length_encode [of rnd xs] by (cases xs) auto
  have "decode (encode rnd xs) = Inr ?ys"
    using ne by (simp add: decode_def length_encode int16s_encode)
  moreover have "\<forall>i < length xs. \<bar>?ys ! i - xs ! i\<bar> \<le> 1 / 32768"
  proof (intro allI impI)
    fix i assume i: "i < length xs"
    then have "xs ! i \<in> set xs" by simp
    with assms(3) have "- 1 \<le> xs ! i" "xs ! i \<le> 1" by auto
    from quantization_error [OF assms(1) this] i
    show "\<bar>?ys ! i - xs ! i\<bar> \<le> 1 / 32768" by (simp only: nth_map)
  qed
  ultimately have trip: "\<exists>ys. decode (encode rnd xs) = Inr ys \<and> length ys = length xs
            \<and> (\<forall>i < length xs. \<bar>ys ! i - xs ! i\<bar> \<le> 1 / 32768)"
    by simp
  have fails: "\<forall>payload. (\<exists>e. decode payload = Inl e) \<longleftrightarrow> payload = [] \<or> odd (length payload)"
    by (simp add: decode_def)
  have err: "\<forall>payload. payload = [] \<or> odd (length payload) \<longrightarrow> decode payload = Inl CodecError"
    by (simp add: decode_def)
  from trip fails err show ?thesis by blast
qed

theorem codec_round_trip_witness:
  "encode floor [1 / 2, - 1, 1] = [0, 0x40, 0, 0x80, 0xFF, 0x7F]
   \<and> decode (encode floor [1 / 2, - 1, 1]) = Inr [1 / 2, - 1, 32767 / 32768]
   \<and> decode [0x12, 0x34, 0x56] = Inl CodecError
   \<and> decode [] = Inl CodecError"
proof -
  have rnd: "\<forall>y :: real. \<bar>real_of_int (floor y) - y\<bar> < 1"
    by (simp add: abs_if) linarith
  have ne: "[1 / 2, - 1, 1] \<noteq> ([] :: real list)" by simp
  have rng: "\<forall>x \<in> set [1 / 2, - 1, 1 :: real]. - 1 \<le> x \<and> x \<le> 1" by simp
  from codec_round_trip [OF rnd ne rng] show ?thesis
    by (simp add: decode_def encode_def le_bytes_def to_int16_def clamp16_def from_le_def
        normalize_sample_def)
qed

end
